theory Spec2Isabelle
  imports Complex_Main
begin

section \<open>Data model (types.ts)\<close>

text \<open>
  The enums of the source. The TypeScript enums are string-valued; only their identity
  matters to the code modelled here, so each becomes a datatype.
\<close>

datatype ToolType = NONE | SELECT | PAN | PEN | HIGHLIGHT | ERASER | SHAPE | TEXT | MAGNIFY

datatype ShapeType = RECTANGLE | CIRCLE | LINE | ARROW

text \<open>
  A JavaScript \<open>number\<close> that holds a measure (scale, line width, opacity, coordinates)
  is modelled as a \<open>real\<close>: the model has no NaN and no rounding. An array index
  (\<open>historyStep\<close>) is an \<open>int\<close>. An optional field (\<open>fontFamily?\<close>) is an \<open>option\<close>.
\<close>

record ToolProperties =
  color :: string
  lineWidth :: real
  opacity :: real
  fontFamily :: "string option"
  fontSize :: "real option"

text \<open>
  The interface \<open>Annotation\<close> repeats the five style fields of \<open>ToolProperties\<close> under the
  same names and types, so the record extends \<open>ToolProperties\<close> with the remaining fields.
  \<open>id\<close>, \<open>type\<close> and \<open>text\<close> are renamed \<open>id_ann\<close>, \<open>type_ann\<close>, \<open>text_ann\<close>; a point
  \<open>{x, y}\<close> is a pair and a bound \<open>{x, y, w, h}\<close> a quadruple.
\<close>

record Annotation = ToolProperties +
  id_ann :: string
  page :: real
  type_ann :: ToolType
  points :: "(real \<times> real) list option"
  bounds :: "(real \<times> real \<times> real \<times> real) option"
  text_ann :: "string option"
  shapeType :: "ShapeType option"

section \<open>Component state (App.tsx, the \<open>useState\<close> hooks)\<close>

text \<open>
  The state of the component that the handlers below read or write. A handler runs on
  the values of the last render and its \<open>set...\<close> calls are applied together before the
  next event is handled, so a handler is a function from the state to the next state.
\<close>

record AppState =
  scale :: real
  isEditMode :: bool
  activeTool :: ToolType
  activeShape :: ShapeType
  toolProperties :: ToolProperties
  history :: "Annotation list list"
  historyStep :: int

definition initialState :: AppState where
  "initialState =
     \<lparr> scale = 1.0, isEditMode = False, activeTool = PAN, activeShape = RECTANGLE,
       toolProperties = \<lparr> color = ''#ef4444'', lineWidth = 2, opacity = 1.0,
                          fontFamily = Some ''Inter'', fontSize = Some 16 \<rparr>,
       history = [[]], historyStep = 0 \<rparr>"

section \<open>Edit mode\<close>

text \<open>
  \<^verbatim>\<open>toggleEditMode={() => { setIsEditMode(!isEditMode);
      setActiveTool(isEditMode ? ToolType.SELECT : ToolType.PAN); }}\<close>
  Both calls read the same \<open>isEditMode\<close>, the value before the toggle.
\<close>

definition toggleEditMode :: "AppState \<Rightarrow> AppState" where
  "toggleEditMode s =
     s\<lparr> isEditMode := \<not> isEditMode s,
        activeTool := (if isEditMode s then SELECT else PAN) \<rparr>"

section \<open>History of annotation sets\<close>

text \<open>
  \<^verbatim>\<open>const currentAnnotations = history[historyStep];\<close>
  Reading an array outside its range gives \<open>undefined\<close> in JavaScript, here \<open>None\<close>.
\<close>

definition currentAnnotations :: "AppState \<Rightarrow> Annotation list option" where
  "currentAnnotations s =
     (if 0 \<le> historyStep s \<and> historyStep s < int (length (history s))
      then Some (history s ! nat (historyStep s)) else None)"

text \<open>
  \<open>Array.prototype.slice(0, end)\<close> for an integer \<open>end\<close>: a negative \<open>end\<close> counts from
  the end of the array, and the bound is cut to the range of the array.
\<close>

definition slice0 :: "'a list \<Rightarrow> int \<Rightarrow> 'a list" where
  "slice0 xs e =
     (let len = int (length xs);
          final = (if e < 0 then max (len + e) 0 else min e len)
      in take (nat final) xs)"

text \<open>
  \<^verbatim>\<open>const handleAnnotationsChange = (updateFn) => {
      const newAnnotations = updateFn(currentAnnotations);
      const newHistory = history.slice(0, historyStep + 1);
      newHistory.push(newAnnotations);
      setHistory(newHistory);
      setHistoryStep(newHistory.length - 1); };\<close>
  \<open>updateFn\<close> receives whatever \<open>currentAnnotations\<close> is, so its argument is an option.
\<close>

definition handleAnnotationsChange ::
  "(Annotation list option \<Rightarrow> Annotation list) \<Rightarrow> AppState \<Rightarrow> AppState" where
  "handleAnnotationsChange updateFn s =
     (let newAnnotations = updateFn (currentAnnotations s);
          newHistory = slice0 (history s) (historyStep s + 1) @ [newAnnotations]
      in s\<lparr> history := newHistory, historyStep := int (length newHistory) - 1 \<rparr>)"

text \<open>
  \<^verbatim>\<open>const handleUndo = () => { if (historyStep > 0) setHistoryStep(prev => prev - 1); };
  const handleRedo = () => { if (historyStep < history.length - 1)
                               setHistoryStep(prev => prev + 1); };\<close>
\<close>

definition handleUndo :: "AppState \<Rightarrow> AppState" where
  "handleUndo s =
     (if historyStep s > 0 then s\<lparr> historyStep := historyStep s - 1 \<rparr> else s)"

definition handleRedo :: "AppState \<Rightarrow> AppState" where
  "handleRedo s =
     (if historyStep s < int (length (history s)) - 1
      then s\<lparr> historyStep := historyStep s + 1 \<rparr> else s)"

text \<open>
  \<open>handleClearAnnotations\<close> commits the empty set when the user confirms; the answer of
  \<open>confirm\<close> is the argument. \<open>loadFile\<close> resets the history when the file is a PDF (the
  argument says whether \<open>file.type === 'application/pdf'\<close>); the fields it sets that are
  not part of \<open>AppState\<close> are left out.
\<close>

definition handleClearAnnotations :: "bool \<Rightarrow> AppState \<Rightarrow> AppState" where
  "handleClearAnnotations confirmed s =
     (if confirmed then handleAnnotationsChange (\<lambda>_. []) s else s)"

definition loadFile :: "bool \<Rightarrow> AppState \<Rightarrow> AppState" where
  "loadFile isPdf s = (if isPdf then s\<lparr> history := [[]], historyStep := 0 \<rparr> else s)"

section \<open>Keyboard and wheel events\<close>

text \<open>
  The fields of the DOM events that the handlers read. \<open>ctrlKey\<close> and \<open>metaKey\<close> belong
  to both event types. The handler only asks of \<open>e.target\<close> whether it is an
  \<open>HTMLInputElement\<close> or an \<open>HTMLTextAreaElement\<close>.
\<close>

datatype EventTarget = HTMLInputElement | HTMLTextAreaElement | OtherElement

record ModifierEvent =
  ctrlKey :: bool
  metaKey :: bool

record KeyboardEvent = ModifierEvent +
  key :: string
  shiftKey :: bool
  target :: EventTarget

record WheelEvent = ModifierEvent +
  deltaY :: real

text \<open>
  \<open>String.prototype.toLowerCase\<close> on the characters of the model (bytes): the letters
  \<open>A\<close> to \<open>Z\<close> move to \<open>a\<close> to \<open>z\<close>, every other character stays.
\<close>

definition toLowerChar :: "char \<Rightarrow> char" where
  "toLowerChar c =
     (case map_of (zip ''ABCDEFGHIJKLMNOPQRSTUVWXYZ'' ''abcdefghijklmnopqrstuvwxyz'') c of
        None \<Rightarrow> c
      | Some l \<Rightarrow> l)"

definition toLowerCase :: "string \<Rightarrow> string" where
  "toLowerCase str = map toLowerChar str"

definition isTextField :: "EventTarget \<Rightarrow> bool" where
  "isTextField t = (t = HTMLInputElement \<or> t = HTMLTextAreaElement)"

text \<open>
  The \<open>switch (e.key.toLowerCase())\<close> at the end of \<open>handleKeyDown\<close>, on the lowered key
  \<open>k\<close>. A key that matches no \<open>case\<close> changes nothing.
\<close>

definition keySwitch :: "string \<Rightarrow> AppState \<Rightarrow> AppState" where
  "keySwitch k s =
     (if k = ''v'' then s\<lparr> activeTool := SELECT \<rparr>
      else if k = ''p'' then s\<lparr> activeTool := PEN \<rparr>
      else if k = ''h'' then s\<lparr> activeTool := HIGHLIGHT \<rparr>
      else if k = ''e'' then s\<lparr> activeTool := ERASER \<rparr>
      else if k = ''t'' then s\<lparr> activeTool := TEXT \<rparr>
      else if k = ''r'' then s\<lparr> activeTool := SHAPE, activeShape := RECTANGLE \<rparr>
      else if k = ''c'' then s\<lparr> activeTool := SHAPE, activeShape := CIRCLE \<rparr>
      else if k = ''l'' then s\<lparr> activeTool := SHAPE, activeShape := LINE \<rparr>
      else if k = ''a'' then s\<lparr> activeTool := SHAPE, activeShape := ARROW \<rparr>
      else if k = ''['' then
        s\<lparr> toolProperties :=
             (toolProperties s)\<lparr> lineWidth := max 1 (lineWidth (toolProperties s) - 1) \<rparr> \<rparr>
      else if k = '']'' then
        s\<lparr> toolProperties :=
             (toolProperties s)\<lparr> lineWidth := min 100 (lineWidth (toolProperties s) + 1) \<rparr> \<rparr>
      else s)"

text \<open>
  \<open>handleKeyDown\<close>, branch by branch in the order of the source; every \<open>return\<close> of the
  source ends the chain here. \<open>e.preventDefault()\<close> acts on the browser only and has no
  part in the state.
\<close>

definition handleKeyDown :: "KeyboardEvent \<Rightarrow> AppState \<Rightarrow> AppState" where
  "handleKeyDown e s =
     (if (ctrlKey e \<or> metaKey e) \<and> key e = ''z''
        then (if shiftKey e then handleRedo s else handleUndo s)
      else if (ctrlKey e \<or> metaKey e) \<and> key e = ''y''
        then handleRedo s
      else if (ctrlKey e \<or> metaKey e) \<and> (key e = ''='' \<or> key e = ''+'')
        then s\<lparr> scale := min 4.0 (scale s + 0.1) \<rparr>
      else if (ctrlKey e \<or> metaKey e) \<and> key e = ''-''
        then s\<lparr> scale := max 0.25 (scale s - 0.1) \<rparr>
      else if toLowerCase (key e) = ''m'' \<and> \<not> ctrlKey e \<and> \<not> metaKey e
              \<and> \<not> isTextField (target e)
        then s\<lparr> activeTool :=
                 (if activeTool s = MAGNIFY
                  then (if isEditMode s then SELECT else PAN) else MAGNIFY) \<rparr>
      else if \<not> isEditMode s then s
      else if isTextField (target e) then s
      else keySwitch (toLowerCase (key e)) s)"

text \<open>
  \<^verbatim>\<open>const handleWheel = (e) => { if (e.ctrlKey || e.metaKey) { e.preventDefault();
      const delta = -e.deltaY * 0.001;
      setScale(s => Math.min(4.0, Math.max(0.25, s + delta))); } };\<close>
\<close>

definition handleWheel :: "WheelEvent \<Rightarrow> AppState \<Rightarrow> AppState" where
  "handleWheel e s =
     (if ctrlKey e \<or> metaKey e
      then (let delta = - deltaY e * 0.001
            in s\<lparr> scale := min 4.0 (max 0.25 (scale s + delta)) \<rparr>)
      else s)"

section \<open>Sequences of user inputs\<close>

text \<open>
  The inputs through which \<open>App.tsx\<close> changes the state above: the two window events,
  the edit-mode button, a commit from the viewer, the undo and redo buttons of the
  sidebar, clear-all, and loading a file. \<open>run\<close> handles a sequence of them in order.
\<close>

datatype Input =
    KeyDown KeyboardEvent
  | Wheel WheelEvent
  | ToggleEditMode
  | AnnotationsChange "Annotation list option \<Rightarrow> Annotation list"
  | Undo
  | Redo
  | ClearAnnotations bool
  | LoadFile bool

fun dispatch :: "Input \<Rightarrow> AppState \<Rightarrow> AppState" where
  "dispatch (KeyDown e) s = handleKeyDown e s"
| "dispatch (Wheel e) s = handleWheel e s"
| "dispatch ToggleEditMode s = toggleEditMode s"
| "dispatch (AnnotationsChange updateFn) s = handleAnnotationsChange updateFn s"
| "dispatch Undo s = handleUndo s"
| "dispatch Redo s = handleRedo s"
| "dispatch (ClearAnnotations confirmed) s = handleClearAnnotations confirmed s"
| "dispatch (LoadFile isPdf) s = loadFile isPdf s"

fun run :: "Input list \<Rightarrow> AppState \<Rightarrow> AppState" where
  "run [] s = s"
| "run (i # is) s = run is (dispatch i s)"

fun isViewInput :: "Input \<Rightarrow> bool" where
  "isViewInput (KeyDown e) = True"
| "isViewInput (Wheel e) = True"
| "isViewInput _ = False"

definition scaleInRange :: "AppState \<Rightarrow> bool" where
  "scaleInRange s = (0.25 \<le> scale s \<and> scale s \<le> 4.0)"

definition lineWidthInRange :: "AppState \<Rightarrow> bool" where
  "lineWidthInRange s =
     (1 \<le> lineWidth (toolProperties s) \<and> lineWidth (toolProperties s) \<le> 100)"

definition historyInRange :: "AppState \<Rightarrow> bool" where
  "historyInRange s = (0 \<le> historyStep s \<and> historyStep s < int (length (history s)))"

section \<open>Example data\<close>

text \<open>
  A pen stroke with the default style, told apart by its id, and the history of the
  scenario of the specification after the commits of \<open>{A}\<close> and \<open>{A, B}\<close> and one undo.
\<close>

definition penStroke :: "string \<Rightarrow> Annotation" where
  "penStroke i =
     \<lparr> color = ''#ef4444'', lineWidth = 2, opacity = 1.0,
       fontFamily = None, fontSize = None,
       id_ann = i, page = 1, type_ann = PEN,
       points = Some [(0, 0), (10, 5)], bounds = None, text_ann = None, shapeType = None \<rparr>"

definition afterUndoState :: AppState where
  "afterUndoState =
     initialState\<lparr> history := [[], [penStroke ''A''], [penStroke ''A'', penStroke ''B'']],
                    historyStep := 1 \<rparr>"

definition appendStroke :: "string \<Rightarrow> Annotation list option \<Rightarrow> Annotation list" where
  "appendStroke i prev = (case prev of None \<Rightarrow> [penStroke i] | Some xs \<Rightarrow> xs @ [penStroke i])"

definition keyPress :: "string \<Rightarrow> KeyboardEvent" where
  "keyPress k =
     \<lparr> ctrlKey = False, metaKey = False, key = k, shiftKey = False, target = OtherElement \<rparr>"

section \<open>Edit mode: what the toggle does to the tool\<close>

lemma toggleEditMode_flips: "isEditMode (toggleEditMode s) = (\<not> isEditMode s)"
  by (simp add: toggleEditMode_def)

lemma toggleEditMode_tool:
  "activeTool (toggleEditMode s) = (if isEditMode (toggleEditMode s) then PAN else SELECT)"
  by (simp add: toggleEditMode_def)

text \<open>
  C1. The claim: entering edit mode yields the tool \<open>select\<close>, leaving it yields \<open>pan\<close>.
  The code does the reverse, since the tool is chosen from the mode before the toggle:
  from the initial state (edit mode off, tool \<open>pan\<close>) the toggle turns edit mode on and
  leaves the tool at \<open>pan\<close>, and a second toggle turns edit mode off with the tool
  \<open>select\<close>.
\<close>

theorem toggleEditMode_enter_from_initial:
  "isEditMode initialState = False \<and>
   isEditMode (toggleEditMode initialState) = True \<and>
   activeTool (toggleEditMode initialState) = PAN \<and>
   isEditMode (toggleEditMode (toggleEditMode initialState)) = False \<and>
   activeTool (toggleEditMode (toggleEditMode initialState)) = SELECT"
  by (simp add: toggleEditMode_def initialState_def)

section \<open>History: commit, undo, redo\<close>

lemma slice0_in_range: "0 \<le> e \<Longrightarrow> slice0 xs e = take (nat e) xs"
  by (simp add: slice0_def Let_def min_def)

text \<open>
  C2. In a history state with \<open>0 \<le> step < length\<close>, a commit keeps the snapshots
  \<open>[0, step]\<close>, appends the new set and moves the step to the new last index; after it
  redo does nothing and the current set is the committed one.
\<close>

theorem commit_truncates_and_appends:
  assumes "0 \<le> historyStep s" and "historyStep s < int (length (history s))"
  shows "history (handleAnnotationsChange updateFn s) =
           take (nat (historyStep s) + 1) (history s)
             @ [updateFn (Some (history s ! nat (historyStep s)))]
         \<and> historyStep (handleAnnotationsChange updateFn s) = historyStep s + 1
         \<and> historyStep (handleAnnotationsChange updateFn s) =
             int (length (history (handleAnnotationsChange updateFn s))) - 1
         \<and> handleRedo (handleAnnotationsChange updateFn s) = handleAnnotationsChange updateFn s
         \<and> currentAnnotations (handleAnnotationsChange updateFn s) =
             Some (updateFn (currentAnnotations s))"
proof -
  obtain n where n: "historyStep s = int n"
    using assms(1) nonneg_int_cases by blast
  have lt: "n < length (history s)"
    using assms(2) n by simp
  have sl: "slice0 (history s) (int n + 1) = take (Suc n) (history s)"
    by (simp add: slice0_in_range nat_add_distrib)
  have cur: "currentAnnotations s = Some (history s ! n)"
    using n lt by (simp add: currentAnnotations_def)
  let ?new = "take (Suc n) (history s) @ [updateFn (Some (history s ! n))]"
  have len: "length ?new = Suc (Suc n)"
    using lt by simp
  have eq: "handleAnnotationsChange updateFn s =
              s\<lparr> history := ?new, historyStep := int n + 1 \<rparr>"
    unfolding handleAnnotationsChange_def Let_def cur n sl len by simp
  have last: "?new ! Suc n = updateFn (Some (history s ! n))"
    using lt by (simp add: nth_append)
  have nat1: "nat (int n + 1) = Suc n"
    by simp
  have cur': "currentAnnotations (s\<lparr> history := ?new, historyStep := int n + 1 \<rparr>) =
                Some (updateFn (Some (history s ! n)))"
    unfolding currentAnnotations_def using len last nat1 by simp
  have redo: "handleRedo (s\<lparr> history := ?new, historyStep := int n + 1 \<rparr>) =
                s\<lparr> history := ?new, historyStep := int n + 1 \<rparr>"
    unfolding handleRedo_def using len by simp
  show ?thesis
    unfolding eq cur' redo cur using n len by simp
qed

theorem commit_truncates_and_appends_witness:
  "0 \<le> historyStep afterUndoState
   \<and> historyStep afterUndoState < int (length (history afterUndoState))
   \<and> history (handleAnnotationsChange (appendStroke ''C'') afterUndoState) =
       [[], [penStroke ''A''], [penStroke ''A'', penStroke ''C'']]
   \<and> historyStep (handleAnnotationsChange (appendStroke ''C'') afterUndoState) = 2
   \<and> handleRedo (handleAnnotationsChange (appendStroke ''C'') afterUndoState) =
       handleAnnotationsChange (appendStroke ''C'') afterUndoState
   \<and> currentAnnotations (handleAnnotationsChange (appendStroke ''C'') afterUndoState) =
       Some [penStroke ''A'', penStroke ''C'']"
  using commit_truncates_and_appends [of afterUndoState "appendStroke ''C''"]
  by (simp add: afterUndoState_def initialState_def appendStroke_def currentAnnotations_def)

lemma afterUndoState_reached:
  "run [AnnotationsChange (appendStroke ''A''), AnnotationsChange (appendStroke ''B''), Undo]
     initialState = afterUndoState"
  by (simp add: afterUndoState_def initialState_def handleAnnotationsChange_def handleUndo_def
      slice0_def currentAnnotations_def appendStroke_def)

lemma historyInRange_commit: "historyInRange (handleAnnotationsChange updateFn s)"
  by (simp add: historyInRange_def handleAnnotationsChange_def Let_def)

lemma historyInRange_undo: "historyInRange s \<Longrightarrow> historyInRange (handleUndo s)"
  by (simp add: historyInRange_def handleUndo_def)

lemma historyInRange_redo: "historyInRange s \<Longrightarrow> historyInRange (handleRedo s)"
  by (simp add: historyInRange_def handleRedo_def)

lemma history_keySwitch: "history (keySwitch k s) = history s"
  by (simp add: keySwitch_def)

lemma historyStep_keySwitch: "historyStep (keySwitch k s) = historyStep s"
  by (simp add: keySwitch_def)

text \<open>
  Every result of \<open>handleKeyDown\<close> is the result of one of its seven branches, so a
  property of all seven holds of the handler.
\<close>

lemma handleKeyDown_branches:
  assumes "P (handleRedo s)" and "P (handleUndo s)"
    and "P (s\<lparr> scale := min 4.0 (scale s + 0.1) \<rparr>)"
    and "P (s\<lparr> scale := max 0.25 (scale s - 0.1) \<rparr>)"
    and "P (s\<lparr> activeTool := (if activeTool s = MAGNIFY
                                then (if isEditMode s then SELECT else PAN)
                                else MAGNIFY) \<rparr>)"
    and "P s"
    and "P (keySwitch (toLowerCase (key e)) s)"
  shows "P (handleKeyDown e s)"
  unfolding handleKeyDown_def using assms by (simp only: if_split) blast

lemma historyInRange_keyDown:
  assumes "historyInRange s"
  shows "historyInRange (handleKeyDown e s)"
proof (rule handleKeyDown_branches)
  show "historyInRange (handleRedo s)"
    using assms by (rule historyInRange_redo)
  show "historyInRange (handleUndo s)"
    using assms by (rule historyInRange_undo)
  show "historyInRange (keySwitch (toLowerCase (key e)) s)"
    using assms by (simp add: historyInRange_def history_keySwitch historyStep_keySwitch)
qed (use assms in \<open>simp_all add: historyInRange_def\<close>)

lemma historyInRange_dispatch:
  assumes "historyInRange s"
  shows "historyInRange (dispatch i s)"
proof (cases i)
  case (KeyDown e)
  then show ?thesis using assms by (simp add: historyInRange_keyDown)
next
  case (Wheel e)
  then show ?thesis using assms by (simp add: handleWheel_def historyInRange_def Let_def)
next
  case ToggleEditMode
  then show ?thesis using assms by (simp add: toggleEditMode_def historyInRange_def)
next
  case (AnnotationsChange updateFn)
  then show ?thesis by (simp add: historyInRange_commit)
next
  case Undo
  then show ?thesis using assms by (simp add: historyInRange_undo)
next
  case Redo
  then show ?thesis using assms by (simp add: historyInRange_redo)
next
  case (ClearAnnotations confirmed)
  then show ?thesis using assms by (simp add: handleClearAnnotations_def historyInRange_commit)
next
  case (LoadFile isPdf)
  then show ?thesis using assms by (simp add: loadFile_def historyInRange_def)
qed

lemma historyInRange_run: "historyInRange s \<Longrightarrow> historyInRange (run ins s)"
  by (induction ins arbitrary: s) (simp_all add: historyInRange_dispatch)

lemma historyInRange_initial: "historyInRange initialState"
  by (simp add: historyInRange_def initialState_def)

text \<open>
  C3. In every state reached from the initial state by a sequence of inputs, undo does
  nothing at step 0 and otherwise lowers the step by one, redo does nothing at the last
  step and otherwise raises it by one, and neither changes the sequence of snapshots.
  Both handlers are total functions with no error branch: the source has no \<open>throw\<close>.
\<close>

theorem undo_redo_at_bounds:
  "handleUndo (run ins initialState) =
     (if historyStep (run ins initialState) = 0 then run ins initialState
      else (run ins initialState)\<lparr> historyStep := historyStep (run ins initialState) - 1 \<rparr>)
   \<and> handleRedo (run ins initialState) =
     (if historyStep (run ins initialState) = int (length (history (run ins initialState))) - 1
      then run ins initialState
      else (run ins initialState)\<lparr> historyStep := historyStep (run ins initialState) + 1 \<rparr>)
   \<and> history (handleUndo (run ins initialState)) = history (run ins initialState)
   \<and> history (handleRedo (run ins initialState)) = history (run ins initialState)"
proof -
  have "historyInRange (run ins initialState)"
    by (rule historyInRange_run) (rule historyInRange_initial)
  then show ?thesis
    by (simp add: historyInRange_def handleUndo_def handleRedo_def)
qed

theorem undo_redo_at_bounds_witness:
  "handleUndo (run [AnnotationsChange (appendStroke ''A''), Undo] initialState) =
     run [AnnotationsChange (appendStroke ''A''), Undo] initialState
   \<and> historyStep (handleRedo (run [AnnotationsChange (appendStroke ''A''), Undo] initialState)) = 1
   \<and> history (handleRedo (run [AnnotationsChange (appendStroke ''A''), Undo] initialState)) =
       [[], [penStroke ''A'']]"
  using undo_redo_at_bounds [of "[AnnotationsChange (appendStroke ''A''), Undo]"]
  by (simp add: initialState_def handleAnnotationsChange_def handleUndo_def handleRedo_def
      slice0_def currentAnnotations_def appendStroke_def)

text \<open>
  C4. In a history state with \<open>0 < step < length\<close>, undo followed by redo gives back the
  state, and so the current annotation set, that was there before the undo.
\<close>

theorem undo_redo_roundtrip:
  assumes "0 < historyStep s" and "historyStep s < int (length (history s))"
  shows "handleRedo (handleUndo s) = s
         \<and> currentAnnotations (handleRedo (handleUndo s)) = currentAnnotations s"
  using assms by (simp add: handleUndo_def handleRedo_def)

theorem undo_redo_roundtrip_witness:
  "0 < historyStep afterUndoState
   \<and> historyStep afterUndoState < int (length (history afterUndoState))
   \<and> currentAnnotations (handleUndo afterUndoState) = Some []
   \<and> currentAnnotations (handleRedo (handleUndo afterUndoState)) = Some [penStroke ''A'']
   \<and> currentAnnotations afterUndoState = Some [penStroke ''A'']"
  using undo_redo_roundtrip [of afterUndoState]
  by (simp add: afterUndoState_def initialState_def handleUndo_def handleRedo_def
      currentAnnotations_def)

section \<open>Keyboard shortcuts\<close>

lemma toLowerCase_fixes:
  "toLowerCase ''z'' = ''z''" "toLowerCase ''y'' = ''y''" "toLowerCase ''='' = ''=''"
  "toLowerCase ''+'' = ''+''" "toLowerCase ''-'' = ''-''"
  by (simp_all add: toLowerCase_def toLowerChar_def)

lemma toLowerCase_upper_m: "toLowerCase ''M'' = ''m''"
  by (simp add: toLowerCase_def toLowerChar_def)

text \<open>
  C5. A key event whose lowered key is \<open>m\<close>, with neither ctrl nor meta held and the
  focus outside a text input and a textarea, sets the tool to \<open>magnify\<close> unless it is
  \<open>magnify\<close> already; then it sets it to \<open>select\<close> in edit mode and to \<open>pan\<close> outside it.
  Nothing else of the state changes.
\<close>

theorem magnify_toggle:
  assumes "toLowerCase (key e) = ''m''" and "\<not> ctrlKey e" and "\<not> metaKey e"
    and "\<not> isTextField (target e)"
  shows "handleKeyDown e s =
           s\<lparr> activeTool := (if activeTool s = MAGNIFY
                              then (if isEditMode s then SELECT else PAN)
                              else MAGNIFY) \<rparr>"
  unfolding handleKeyDown_def using assms by simp

theorem magnify_toggle_witness:
  "toLowerCase (key (keyPress ''m'')) = ''m'' \<and> \<not> ctrlKey (keyPress ''m'')
   \<and> \<not> metaKey (keyPress ''m'') \<and> \<not> isTextField (target (keyPress ''m''))
   \<and> activeTool (handleKeyDown (keyPress ''m'') (initialState\<lparr> activeTool := PEN \<rparr>)) = MAGNIFY
   \<and> activeTool (handleKeyDown (keyPress ''m'')
        (handleKeyDown (keyPress ''m'') (initialState\<lparr> activeTool := PEN \<rparr>))) = PAN
   \<and> activeTool (handleKeyDown (keyPress ''m'')
        (initialState\<lparr> isEditMode := True, activeTool := MAGNIFY \<rparr>)) = SELECT"
  using magnify_toggle [of "keyPress ''m''" "initialState\<lparr> activeTool := PEN \<rparr>"]
    magnify_toggle [of "keyPress ''m''" "initialState\<lparr> activeTool := MAGNIFY \<rparr>"]
    magnify_toggle [of "keyPress ''m''" "initialState\<lparr> isEditMode := True, activeTool := MAGNIFY \<rparr>"]
  by (simp add: keyPress_def initialState_def isTextField_def toLowerCase_def toLowerChar_def)

lemma magnify_suppressed_in_text_field:
  assumes "toLowerCase (key e) = ''m''" and "\<not> ctrlKey e" and "\<not> metaKey e"
    and "isTextField (target e)"
  shows "handleKeyDown e s = s"
  unfolding handleKeyDown_def using assms by simp

text \<open>
  The first two branches on an event whose key is the very string \<open>z\<close> or \<open>y\<close>: with
  ctrl or meta held, \<open>z\<close> runs undo, or redo when shift is held too, and \<open>y\<close> runs redo.
  The event does nothing more: the next state is the state of that one operation, which
  differs from the old state in the history step at most.
\<close>

lemma modifier_undo_redo:
  assumes "ctrlKey e \<or> metaKey e" and "key e = ''z'' \<or> key e = ''y''"
  shows "handleKeyDown e s =
           (if key e = ''z'' \<and> \<not> shiftKey e then handleUndo s else handleRedo s)
         \<and> handleKeyDown e s = s\<lparr> historyStep := historyStep (handleKeyDown e s) \<rparr>"
proof -
  have first: "handleKeyDown e s =
                 (if key e = ''z'' \<and> \<not> shiftKey e then handleUndo s else handleRedo s)"
    using assms(2)
  proof
    assume "key e = ''z''"
    with assms(1) show ?thesis unfolding handleKeyDown_def by simp
  next
    assume "key e = ''y''"
    with assms(1) show ?thesis unfolding handleKeyDown_def by simp
  qed
  have "handleUndo s = s\<lparr> historyStep := historyStep (handleUndo s) \<rparr>"
    by (simp add: handleUndo_def)
  moreover have "handleRedo s = s\<lparr> historyStep := historyStep (handleRedo s) \<rparr>"
    by (simp add: handleRedo_def)
  ultimately show ?thesis
    unfolding first by simp
qed

lemma modifier_undo_redo_lower_case_events:
  "(ctrlKey ((keyPress ''z'')\<lparr> ctrlKey := True \<rparr>) \<or> metaKey ((keyPress ''z'')\<lparr> ctrlKey := True \<rparr>))
   \<and> (key ((keyPress ''z'')\<lparr> ctrlKey := True \<rparr>) = ''z''
        \<or> key ((keyPress ''z'')\<lparr> ctrlKey := True \<rparr>) = ''y'')
   \<and> handleKeyDown ((keyPress ''z'')\<lparr> ctrlKey := True \<rparr>) afterUndoState =
       afterUndoState\<lparr> historyStep := 0 \<rparr>
   \<and> handleKeyDown ((keyPress ''z'')\<lparr> ctrlKey := True, shiftKey := True \<rparr>) afterUndoState =
       afterUndoState\<lparr> historyStep := 2 \<rparr>
   \<and> handleKeyDown ((keyPress ''y'')\<lparr> metaKey := True \<rparr>) afterUndoState =
       afterUndoState\<lparr> historyStep := 2 \<rparr>"
  using modifier_undo_redo [of "(keyPress ''z'')\<lparr> ctrlKey := True \<rparr>" afterUndoState]
    modifier_undo_redo [of "(keyPress ''z'')\<lparr> ctrlKey := True, shiftKey := True \<rparr>" afterUndoState]
    modifier_undo_redo [of "(keyPress ''y'')\<lparr> metaKey := True \<rparr>" afterUndoState]
  by (simp add: keyPress_def afterUndoState_def handleUndo_def handleRedo_def)

text \<open>
  The comparisons of the first two branches are with the strings \<open>z\<close> and \<open>y\<close>
  themselves, without the \<open>toLowerCase\<close> of the later branches: an event that reports
  the key as \<open>Z\<close> or \<open>Y\<close> is not an undo or redo shortcut, whatever the modifiers.
\<close>

lemma upper_z_is_no_shortcut:
  assumes "key e = ''Z''"
  shows "handleKeyDown e s = s"
  unfolding handleKeyDown_def keySwitch_def using assms
  by (simp add: toLowerCase_def toLowerChar_def)

lemma upper_y_is_no_shortcut:
  assumes "key e = ''Y''"
  shows "handleKeyDown e s = s"
  unfolding handleKeyDown_def keySwitch_def using assms
  by (simp add: toLowerCase_def toLowerChar_def)

text \<open>
  C6. The claim: with ctrl or meta held, the key \<open>z\<close> fires undo, or redo when shift is
  held too. With shift held the event of the chord reports the key as \<open>Z\<close>, and on
  that event the code fires nothing: after the commits of \<open>{A}\<close> and \<open>{A, B}\<close> and one
  undo a redo is there to run (it would move the step from 1 to 2), and the key event
  with ctrl and shift leaves the state as it is.
\<close>

theorem ctrl_shift_upper_z_fires_no_redo:
  "ctrlKey ((keyPress ''Z'')\<lparr> ctrlKey := True, shiftKey := True \<rparr>)
   \<and> shiftKey ((keyPress ''Z'')\<lparr> ctrlKey := True, shiftKey := True \<rparr>)
   \<and> historyStep afterUndoState = 1
   \<and> historyStep (handleRedo afterUndoState) = 2
   \<and> handleRedo afterUndoState \<noteq> afterUndoState
   \<and> handleKeyDown ((keyPress ''Z'')\<lparr> ctrlKey := True, shiftKey := True \<rparr>) afterUndoState =
       afterUndoState
   \<and> historyStep
        (handleKeyDown ((keyPress ''Z'')\<lparr> ctrlKey := True, shiftKey := True \<rparr>) afterUndoState) = 1"
proof -
  have step: "historyStep afterUndoState = 1"
    by (simp add: afterUndoState_def)
  have redo: "historyStep (handleRedo afterUndoState) = 2"
    by (simp add: afterUndoState_def handleRedo_def)
  have differs: "handleRedo afterUndoState \<noteq> afterUndoState"
    using step redo by auto
  have stays: "handleKeyDown ((keyPress ''Z'')\<lparr> ctrlKey := True, shiftKey := True \<rparr>)
                 afterUndoState = afterUndoState"
    unfolding handleKeyDown_def keySwitch_def
    by (simp add: keyPress_def toLowerCase_def toLowerChar_def)
  show ?thesis
    unfolding stays using step redo differs by (simp add: keyPress_def)
qed

lemma shortcut_key_not_modifier_key:
  assumes "toLowerCase k \<in>
             set [''v'', ''p'', ''h'', ''e'', ''t'', ''r'', ''c'', ''l'', ''a'', ''['', '']'']"
  shows "k \<noteq> ''z''" "k \<noteq> ''y''" "k \<noteq> ''=''" "k \<noteq> ''+''" "k \<noteq> ''-''"
    "toLowerCase k \<noteq> ''m''"
  using assms toLowerCase_fixes by auto

text \<open>
  C7. For a key whose lowered form is one of \<open>v p h e t r c l a [ ]\<close>: when edit mode is
  off, or the focus is in a text input or a textarea, the key event changes nothing; in
  particular the tool, the shape and the tool properties stay as they are.
\<close>

theorem gated_shortcuts_suppressed:
  assumes "toLowerCase (key e) \<in>
             set [''v'', ''p'', ''h'', ''e'', ''t'', ''r'', ''c'', ''l'', ''a'', ''['', '']'']"
    and "\<not> isEditMode s \<or> isTextField (target e)"
  shows "handleKeyDown e s = s
         \<and> activeTool (handleKeyDown e s) = activeTool s
         \<and> activeShape (handleKeyDown e s) = activeShape s
         \<and> toolProperties (handleKeyDown e s) = toolProperties s"
proof -
  have "handleKeyDown e s = s"
    unfolding handleKeyDown_def
    using shortcut_key_not_modifier_key [OF assms(1)] assms(2) by simp
  then show ?thesis by simp
qed

theorem gated_shortcuts_suppressed_witness:
  "toLowerCase (key ((keyPress ''e'')\<lparr> target := HTMLInputElement \<rparr>)) \<in>
     set [''v'', ''p'', ''h'', ''e'', ''t'', ''r'', ''c'', ''l'', ''a'', ''['', '']'']
   \<and> isEditMode (initialState\<lparr> isEditMode := True \<rparr>)
   \<and> isTextField (target ((keyPress ''e'')\<lparr> target := HTMLInputElement \<rparr>))
   \<and> handleKeyDown ((keyPress ''e'')\<lparr> target := HTMLInputElement \<rparr>)
        (initialState\<lparr> isEditMode := True \<rparr>) = initialState\<lparr> isEditMode := True \<rparr>
   \<and> isEditMode initialState = False
   \<and> handleKeyDown (keyPress '']'') initialState = initialState
   \<and> activeTool (handleKeyDown (keyPress ''e'') (initialState\<lparr> isEditMode := True \<rparr>)) = ERASER"
  using gated_shortcuts_suppressed [of "(keyPress ''e'')\<lparr> target := HTMLInputElement \<rparr>"
      "initialState\<lparr> isEditMode := True \<rparr>"]
    gated_shortcuts_suppressed [of "keyPress '']''" initialState]
  by (simp add: keyPress_def initialState_def isTextField_def toLowerCase_def toLowerChar_def
      handleKeyDown_def keySwitch_def)

section \<open>Clamped quantities: scale and line width\<close>

lemma scale_keySwitch: "scale (keySwitch k s) = scale s"
  by (simp add: keySwitch_def)

lemma scale_undo: "scale (handleUndo s) = scale s"
  by (simp add: handleUndo_def)

lemma scale_redo: "scale (handleRedo s) = scale s"
  by (simp add: handleRedo_def)

lemma toolProperties_undo: "toolProperties (handleUndo s) = toolProperties s"
  by (simp add: handleUndo_def)

lemma toolProperties_redo: "toolProperties (handleRedo s) = toolProperties s"
  by (simp add: handleRedo_def)

lemma zoom_in_clamped:
  fixes x :: real
  assumes "0.25 \<le> x" and "x \<le> 4.0"
  shows "0.25 \<le> min 4.0 (x + 0.1)" and "min 4.0 (x + 0.1) \<le> 4.0"
  using assms by (simp_all add: min_def)

lemma zoom_out_clamped:
  fixes x :: real
  assumes "0.25 \<le> x" and "x \<le> 4.0"
  shows "0.25 \<le> max 0.25 (x - 0.1)" and "max 0.25 (x - 0.1) \<le> 4.0"
  using assms by (simp_all add: max_def)

lemma scaleInRange_clamped: "scaleInRange (s\<lparr> scale := min 4.0 (max 0.25 y) \<rparr>)"
  by (simp add: scaleInRange_def min_def max_def)

lemma zoom_in_shortcut:
  assumes "ctrlKey e \<or> metaKey e" and "key e = ''='' \<or> key e = ''+''"
  shows "handleKeyDown e s = s\<lparr> scale := min 4.0 (scale s + 0.1) \<rparr>"
  using assms(2)
proof
  assume "key e = ''=''"
  with assms(1) show ?thesis unfolding handleKeyDown_def by simp
next
  assume "key e = ''+''"
  with assms(1) show ?thesis unfolding handleKeyDown_def by simp
qed

lemma zoom_out_shortcut:
  assumes "ctrlKey e \<or> metaKey e" and "key e = ''-''"
  shows "handleKeyDown e s = s\<lparr> scale := max 0.25 (scale s - 0.1) \<rparr>"
  using assms unfolding handleKeyDown_def by simp

lemma scaleInRange_keyDown:
  assumes "scaleInRange s"
  shows "scaleInRange (handleKeyDown e s)"
proof (rule handleKeyDown_branches)
  show "scaleInRange (handleRedo s)"
    using assms by (simp add: scaleInRange_def scale_redo)
  show "scaleInRange (handleUndo s)"
    using assms by (simp add: scaleInRange_def scale_undo)
  show "scaleInRange (s\<lparr> scale := min 4.0 (scale s + 0.1) \<rparr>)"
    using assms zoom_in_clamped [of "scale s"] by (simp add: scaleInRange_def)
  show "scaleInRange (s\<lparr> scale := max 0.25 (scale s - 0.1) \<rparr>)"
    using assms zoom_out_clamped [of "scale s"] by (simp add: scaleInRange_def)
  show "scaleInRange (s\<lparr> activeTool := (if activeTool s = MAGNIFY
                                then (if isEditMode s then SELECT else PAN)
                                else MAGNIFY) \<rparr>)"
    using assms by (simp add: scaleInRange_def)
  show "scaleInRange s" by (rule assms)
  show "scaleInRange (keySwitch (toLowerCase (key e)) s)"
    using assms by (simp add: scaleInRange_def scale_keySwitch)
qed

lemma scaleInRange_wheel:
  assumes "scaleInRange s"
  shows "scaleInRange (handleWheel e s)"
proof (cases "ctrlKey e \<or> metaKey e")
  case True
  then have "handleWheel e s =
               s\<lparr> scale := min 4.0 (max 0.25 (scale s + - deltaY e * 0.001)) \<rparr>"
    unfolding handleWheel_def Let_def by (simp only: if_True)
  then show ?thesis
    by (simp only: scaleInRange_clamped)
next
  case False
  then show ?thesis
    using assms by (simp add: handleWheel_def)
qed

lemma scaleInRange_dispatch:
  "isViewInput i \<Longrightarrow> scaleInRange s \<Longrightarrow> scaleInRange (dispatch i s)"
  by (cases i) (simp_all add: scaleInRange_keyDown scaleInRange_wheel)

text \<open>
  C8. From a scale in \<open>[0.25, 4.0]\<close>, any sequence of key events and wheel events, with
  any keys, modifiers and \<open>deltaY\<close>, ends with a scale in \<open>[0.25, 4.0]\<close>. The zoom
  shortcuts and the wheel step are the only branches of the two handlers that write the
  scale (\<open>zoom_in_shortcut\<close>, \<open>zoom_out_shortcut\<close>, \<open>handleWheel_def\<close>).
\<close>

theorem scale_stays_in_range:
  assumes "scaleInRange s" and "list_all isViewInput ins"
  shows "scaleInRange (run ins s)"
  using assms
proof (induction ins arbitrary: s)
  case Nil
  then show ?case by simp
next
  case (Cons i ins)
  from Cons.prems have "scaleInRange (dispatch i s)"
    by (simp add: scaleInRange_dispatch)
  with Cons show ?case by simp
qed

theorem scale_stays_in_range_witness:
  "scaleInRange (initialState\<lparr> scale := 3.95 \<rparr>)
   \<and> list_all isViewInput
        [KeyDown ((keyPress ''='')\<lparr> ctrlKey := True \<rparr>),
         Wheel \<lparr> ctrlKey = False, metaKey = True, deltaY = 5000 \<rparr>,
         KeyDown ((keyPress ''-'')\<lparr> ctrlKey := True \<rparr>)]
   \<and> scaleInRange (run
        [KeyDown ((keyPress ''='')\<lparr> ctrlKey := True \<rparr>),
         Wheel \<lparr> ctrlKey = False, metaKey = True, deltaY = 5000 \<rparr>,
         KeyDown ((keyPress ''-'')\<lparr> ctrlKey := True \<rparr>)]
        (initialState\<lparr> scale := 3.95 \<rparr>))
   \<and> scale (handleKeyDown ((keyPress ''='')\<lparr> ctrlKey := True \<rparr>)
        (initialState\<lparr> scale := 3.95 \<rparr>)) = 4.0
   \<and> scale (handleWheel \<lparr> ctrlKey = False, metaKey = True, deltaY = 5000 \<rparr>
        (initialState\<lparr> scale := 4.0 \<rparr>)) = 0.25"
  using scale_stays_in_range [of "initialState\<lparr> scale := 3.95 \<rparr>"
      "[KeyDown ((keyPress ''='')\<lparr> ctrlKey := True \<rparr>),
        Wheel \<lparr> ctrlKey = False, metaKey = True, deltaY = 5000 \<rparr>,
        KeyDown ((keyPress ''-'')\<lparr> ctrlKey := True \<rparr>)]"]
  by (simp add: scaleInRange_def initialState_def keyPress_def handleKeyDown_def
      handleWheel_def)

lemma lineWidthInRange_keySwitch:
  "lineWidthInRange s \<Longrightarrow> lineWidthInRange (keySwitch k s)"
  unfolding keySwitch_def lineWidthInRange_def by (simp add: min_def max_def)

lemma lineWidthInRange_keyDown:
  assumes "lineWidthInRange s"
  shows "lineWidthInRange (handleKeyDown e s)"
proof (rule handleKeyDown_branches)
  show "lineWidthInRange (keySwitch (toLowerCase (key e)) s)"
    using assms by (rule lineWidthInRange_keySwitch)
qed (use assms in \<open>simp_all add: lineWidthInRange_def toolProperties_undo toolProperties_redo\<close>)

lemma bracket_shortcuts:
  assumes "isEditMode s" and "\<not> isTextField (target e)" and "\<not> ctrlKey e" and "\<not> metaKey e"
  shows "key e = ''['' \<Longrightarrow> lineWidth (toolProperties (handleKeyDown e s)) =
           max 1 (lineWidth (toolProperties s) - 1)"
    and "key e = '']'' \<Longrightarrow> lineWidth (toolProperties (handleKeyDown e s)) =
           min 100 (lineWidth (toolProperties s) + 1)"
  using assms unfolding handleKeyDown_def keySwitch_def
  by (simp_all add: toLowerCase_def toLowerChar_def)

text \<open>
  C9. From a line width in \<open>[1, 100]\<close>, any sequence of key events, among them any
  number of \<open>[\<close> and \<open>]\<close> presses in edit mode, ends with a line width in \<open>[1, 100]\<close>:
  the value stored by each press is already clamped (\<open>bracket_shortcuts\<close>).
\<close>

theorem lineWidth_stays_in_range:
  assumes "lineWidthInRange s"
  shows "lineWidthInRange (run (map KeyDown es) s)"
  using assms
  by (induction es arbitrary: s) (simp_all add: lineWidthInRange_keyDown)

theorem lineWidth_stays_in_range_witness:
  "lineWidthInRange (initialState\<lparr> isEditMode := True \<rparr>)
   \<and> lineWidthInRange (run (map KeyDown [keyPress ''['', keyPress ''['', keyPress '']''])
        (initialState\<lparr> isEditMode := True \<rparr>))
   \<and> lineWidth (toolProperties (run (map KeyDown [keyPress ''['', keyPress ''['', keyPress '']''])
        (initialState\<lparr> isEditMode := True \<rparr>))) = 2"
  using lineWidth_stays_in_range [of "initialState\<lparr> isEditMode := True \<rparr>"
      "[keyPress ''['', keyPress ''['', keyPress '']'']"]
  by (simp add: lineWidthInRange_def initialState_def keyPress_def handleKeyDown_def
      keySwitch_def isTextField_def toLowerCase_def toLowerChar_def)

section \<open>Modifier shortcuts and the focus\<close>

lemma isEditMode_update_undo:
  "handleUndo (s\<lparr> isEditMode := m \<rparr>) = (handleUndo s)\<lparr> isEditMode := m \<rparr>"
  by (simp add: handleUndo_def)

lemma isEditMode_update_redo:
  "handleRedo (s\<lparr> isEditMode := m \<rparr>) = (handleRedo s)\<lparr> isEditMode := m \<rparr>"
  by (simp add: handleRedo_def)

text \<open>
  C10. With ctrl or meta held and the key \<open>z\<close>, \<open>y\<close>, \<open>=\<close>, \<open>+\<close> or \<open>-\<close>, the undo, redo or
  zoom runs whatever the focus target \<open>t\<close> and whatever the edit mode \<open>m\<close>: the next state
  is the one of the operation, with the edit mode as it was. The branches that look at
  the target are the magnify toggle (\<open>magnify_suppressed_in_text_field\<close>) and the gate
  before the single-key shortcuts.
\<close>

theorem modifier_shortcuts_not_gated:
  assumes "ctrlKey e \<or> metaKey e"
    and "key e \<in> set [''z'', ''y'', ''='', ''+'', ''-'']"
  shows "handleKeyDown (e\<lparr> target := t \<rparr>) (s\<lparr> isEditMode := m \<rparr>) =
           (if key e = ''z'' then (if shiftKey e then handleRedo s else handleUndo s)
            else if key e = ''y'' then handleRedo s
            else if key e = ''='' \<or> key e = ''+'' then s\<lparr> scale := min 4.0 (scale s + 0.1) \<rparr>
            else s\<lparr> scale := max 0.25 (scale s - 0.1) \<rparr>)\<lparr> isEditMode := m \<rparr>"
proof -
  from assms(2) consider "key e = ''z''" | "key e = ''y''" | "key e = ''=''"
    | "key e = ''+''" | "key e = ''-''"
    by auto
  then show ?thesis
  proof cases
    case 1
    with assms(1) show ?thesis
      unfolding handleKeyDown_def by (simp add: isEditMode_update_undo isEditMode_update_redo)
  next
    case 2
    with assms(1) show ?thesis
      unfolding handleKeyDown_def by (simp add: isEditMode_update_redo)
  next
    case 3
    with assms(1) show ?thesis
      unfolding handleKeyDown_def by simp
  next
    case 4
    with assms(1) show ?thesis
      unfolding handleKeyDown_def by simp
  next
    case 5
    with assms(1) show ?thesis
      unfolding handleKeyDown_def by simp
  qed
qed

theorem modifier_shortcuts_not_gated_witness:
  "(ctrlKey ((keyPress ''z'')\<lparr> ctrlKey := True \<rparr>) \<or> metaKey ((keyPress ''z'')\<lparr> ctrlKey := True \<rparr>))
   \<and> key ((keyPress ''z'')\<lparr> ctrlKey := True \<rparr>) \<in> set [''z'', ''y'', ''='', ''+'', ''-'']
   \<and> handleKeyDown ((keyPress ''z'')\<lparr> ctrlKey := True, target := HTMLInputElement \<rparr>)
        (afterUndoState\<lparr> isEditMode := False \<rparr>) =
       afterUndoState\<lparr> isEditMode := False, historyStep := 0 \<rparr>
   \<and> handleKeyDown ((keyPress ''+'')\<lparr> metaKey := True, target := HTMLTextAreaElement \<rparr>)
        (afterUndoState\<lparr> isEditMode := False \<rparr>) =
       afterUndoState\<lparr> isEditMode := False, scale := 1.1 \<rparr>"
  using modifier_shortcuts_not_gated [where e = "(keyPress ''z'')\<lparr> ctrlKey := True \<rparr>"
      and t = HTMLInputElement and s = afterUndoState and m = False]
    modifier_shortcuts_not_gated [where e = "(keyPress ''+'')\<lparr> metaKey := True \<rparr>"
      and t = HTMLTextAreaElement and s = afterUndoState and m = False]
  by (simp add: keyPress_def afterUndoState_def initialState_def handleUndo_def handleRedo_def)

end
